theory Spec2Isabelle
  imports Main "HOL-Library.Sublist"
begin

section \<open>Overview\<close>

text \<open>
  The undo manager module (\<^verbatim>\<open>src/undo_manager/index.js\<close>) is a closure over four variables,
  \<^verbatim>\<open>em\<close>, \<^verbatim>\<open>um\<close>, \<^verbatim>\<open>config\<close> and \<^verbatim>\<open>beforeCache\<close>, and an object of public operations. It wraps
  an undo library, whose instance is \<^verbatim>\<open>um\<close>, and registers its own capture handlers with it.
  The state of the closure is a record that every operation takes and returns; an operation
  that can throw returns the error beside the state it leaves. The handlers and the public
  operations are translated from the source. The undo library is a dependency that is not
  part of the sources: what it does with the handlers (the Change Recorder, the Command
  Stack, the Tracking Registry) is modelled from the specification, each such definition
  saying so, and what the libraries do to the tracked entities on replay is a parameter.
\<close>

section \<open>JavaScript values\<close>

text \<open>
  The values the module handles. An array carries the address that is its identity, since
  \<^verbatim>\<open>indexOf\<close> compares with \<^verbatim>\<open>===\<close> and two arrays are strictly equal only when they are
  the same array. \<open>JRef\<close> is an instance living outside the module (a model, a collection,
  the editor), known by its address. \<open>JObj\<close> is a plain object literal held by value: the
  module never compares one.
\<close>

datatype jsval =
    JUndefined
  | JNull
  | JBool bool
  | JNum int
  | JStr string
  | JArr nat "jsval list"
  | JObj "(string \<times> jsval) list"
  | JRef nat

type_synonym obj = "string \<rightharpoonup> jsval"

fun truthy :: "jsval \<Rightarrow> bool" where
  "truthy JUndefined = False"
| "truthy JNull = False"
| "truthy (JBool b) = b"
| "truthy (JNum n) = (n \<noteq> 0)"
| "truthy (JStr s) = (s \<noteq> [])"
| "truthy (JArr a xs) = True"
| "truthy (JObj kvs) = True"
| "truthy (JRef r) = True"

definition get_prop :: "obj \<Rightarrow> string \<Rightarrow> jsval" where
  \<comment> \<open>o.k: reading a property that is absent gives undefined.\<close>
  "get_prop ob k = (case ob k of None \<Rightarrow> JUndefined | Some v \<Rightarrow> v)"

definition js_or :: "jsval \<Rightarrow> jsval \<Rightarrow> jsval" where
  \<comment> \<open>a || b returns the first operand when it is truthy, the second otherwise.\<close>
  "js_or a b = (if truthy a then a else b)"

definition default_obj :: "obj option \<Rightarrow> obj" where
  \<comment> \<open>A parameter declared p = {}: the empty object when the argument is omitted.\<close>
  "default_obj p = (case p of None \<Rightarrow> Map.empty | Some ob \<Rightarrow> ob)"

fun isBoolean :: "jsval \<Rightarrow> bool" where
  "isBoolean (JBool b) = True"
| "isBoolean v = False"

fun isArray :: "jsval \<Rightarrow> bool" where
  "isArray (JArr a xs) = True"
| "isArray v = False"

fun strict_eq :: "jsval \<Rightarrow> jsval \<Rightarrow> bool" where
  \<comment> \<open>===: primitives by value, arrays and instances by identity; a plain object
      held by value is never the object it is compared with.\<close>
  "strict_eq JUndefined w = (w = JUndefined)"
| "strict_eq JNull w = (w = JNull)"
| "strict_eq (JBool a) w = (w = JBool a)"
| "strict_eq (JNum a) w = (w = JNum a)"
| "strict_eq (JStr a) w = (w = JStr a)"
| "strict_eq (JArr a xs) w = (case w of JArr b ys \<Rightarrow> a = b | _ \<Rightarrow> False)"
| "strict_eq (JObj kvs) w = False"
| "strict_eq (JRef a) w = (w = JRef a)"

fun indexOf_by :: "('a \<Rightarrow> 'a \<Rightarrow> bool) \<Rightarrow> 'a list \<Rightarrow> 'a \<Rightarrow> int" where
  \<comment> \<open>Array.prototype.indexOf: the first index holding the value, -1 when none does.\<close>
  "indexOf_by eq [] v = -1"
| "indexOf_by eq (x # xs) v =
     (if eq x v then 0
      else (let i = indexOf_by eq xs v in if i < 0 then -1 else i + 1))"

definition indexOf :: "jsval \<Rightarrow> jsval \<Rightarrow> int" where
  \<comment> \<open>arr.indexOf(v) on a value that isArray has accepted.\<close>
  "indexOf arr v = (case arr of JArr a xs \<Rightarrow> indexOf_by strict_eq xs v | _ \<Rightarrow> -1)"

section \<open>The host, the tracked entities and the records\<close>

datatype error = TypeError

datatype ret = This | Undefined

text \<open>
  The editor \<^verbatim>\<open>em\<close> is known by its address; it reports whether an inline-edit session is
  active and logs the events triggered on its bus. A tracked entity, as a handler sees it
  when a notification arrives, has its identity, its attributes (read by \<^verbatim>\<open>get\<close>), the
  attributes before the change (\<^verbatim>\<open>previousAttributes()\<close>), the changed ones
  (\<^verbatim>\<open>changedAttributes()\<close>) and its serialisation under given options (\<^verbatim>\<open>toJSON(opts)\<close>).
  A snapshot is what a capture holds as before or after: nothing, an object of attributes,
  or a model. A capture is the object an \<^verbatim>\<open>on\<close> returns, \<open>None\<close> standing for no result.
\<close>

record host =
  host_id :: nat
  editing :: bool
  triggered :: "string list"

record entity =
  eid :: nat
  attributes :: obj
  previous :: obj
  changed :: "(string \<times> jsval) list"
  toJSON :: "obj \<Rightarrow> obj"

datatype snapshot = SUndefined | SAttrs obj | SModel nat

record capture =
  c_object :: jsval
  c_before :: snapshot
  c_after :: snapshot
  c_options :: "obj option"

record change_record =
  kind :: string
  target :: jsval
  before :: snapshot
  after :: snapshot
  magicFusionIndex :: nat
  options :: "obj option"

datatype handler = ChangeType | AddType | RemoveType | CustomUndoType

record undo_manager =
  um_attrs :: obj
  track :: bool
  registered :: "nat list"
  undoTypes :: "string \<rightharpoonup> handler"
  stack :: "change_record list"
  pointer :: nat
  currentGroupId :: nat
  listeners :: "(string \<times> string) list"

text \<open>
  What the libraries outside the module do to the tracked entities is a parameter: Backbone's
  \<^verbatim>\<open>model.set(attrs)\<close> on the live model, and the undo and redo that the undo library
  itself ships for the kinds \<^verbatim>\<open>change\<close>, \<^verbatim>\<open>add\<close> and \<^verbatim>\<open>remove\<close>, which the module leaves
  as they are.
\<close>

record 'w library =
  model_set :: "jsval \<Rightarrow> snapshot \<Rightarrow> 'w \<Rightarrow> 'w"
  default_undo :: "change_record \<Rightarrow> 'w \<Rightarrow> 'w"
  default_redo :: "change_record \<Rightarrow> 'w \<Rightarrow> 'w"

record 'w module =
  em :: jsval
  um :: "undo_manager option"
  config :: "obj option"
  beforeCache :: "obj option"
  this_em :: jsval
  editor :: host
  world :: 'w

definition fresh_module :: "host \<Rightarrow> 'w \<Rightarrow> 'w module" where
  \<comment> \<open>The closure as export default () => { let em; let um; let config; let beforeCache; ... }
      leaves it: every variable undefined.\<close>
  "fresh_module h w =
     \<lparr> em = JUndefined, um = None, config = None, beforeCache = None,
       this_em = JUndefined, editor = h, world = w \<rparr>"

section \<open>The capture handlers registered by init\<close>

definition configDef :: obj where
  "configDef = [''maximumStackLength'' \<mapsto> JNum 500]"

definition hasSkip :: "obj \<Rightarrow> jsval" where
  "hasSkip opts = js_or (get_prop opts ''avoidStore'') (get_prop opts ''noUndo'')"

definition previousAttributes :: "entity \<Rightarrow> obj" where
  "previousAttributes object = previous object"

definition changedAttributes :: "entity \<Rightarrow> (string \<times> jsval) list" where
  \<comment> \<open>The changed attributes; Object.keys of the false that stands for none is empty
      as well.\<close>
  "changedAttributes object = changed object"

definition condition :: "entity \<Rightarrow> bool" where
  "condition object =
     (let hasUndo = get_prop (attributes object) ''_undo'' in
      if truthy hasUndo then
        (if isBoolean hasUndo then True
         else if isArray hasUndo \<and>
                 (let changed = map fst (changedAttributes object)
                  in list_ex (\<lambda>chn. indexOf hasUndo hasUndo \<ge> 0) changed)
              then True
         else False)
      else False)"

definition fill_cache :: "entity \<Rightarrow> obj option \<Rightarrow> obj" where
  \<comment> \<open>!beforeCache && (beforeCache = object.previousAttributes()): the slot keeps what it
      holds and is filled only when it is empty.\<close>
  "fill_cache object cache = (case cache of None \<Rightarrow> previousAttributes object | Some b \<Rightarrow> b)"

definition change_on ::
  "entity \<Rightarrow> jsval \<Rightarrow> obj option \<Rightarrow> obj option \<Rightarrow> capture option \<times> obj option" where
  "change_on object v opt cache =
     (let opt' = default_obj opt;
          filled = fill_cache object cache
      in if truthy (hasSkip opt') then (None, Some filled)
         else (Some \<lparr> c_object = JRef (eid object), c_before = SAttrs filled,
                       c_after = SAttrs (toJSON object [''fromUndo'' \<mapsto> JNum 1]),
                       c_options = None \<rparr>,
               None))"

definition add_on :: "entity \<Rightarrow> jsval \<Rightarrow> obj option \<Rightarrow> capture option" where
  "add_on model collection opts =
     (let options' = default_obj opts
      in if truthy (hasSkip options') then None
         else Some \<lparr> c_object = collection, c_before = SUndefined,
                      c_after = SModel (eid model), c_options = Some options' \<rparr>)"

definition remove_on :: "entity \<Rightarrow> jsval \<Rightarrow> obj option \<Rightarrow> capture option" where
  "remove_on model collection opts =
     (let options' = default_obj opts
      in if truthy (hasSkip options') then None
         else Some \<lparr> c_object = collection, c_before = SModel (eid model),
                      c_after = SUndefined, c_options = Some options' \<rparr>)"

definition customUndoType_on ::
  "entity \<Rightarrow> jsval \<Rightarrow> obj option \<Rightarrow> obj option \<Rightarrow> capture option \<times> obj option" where
  "customUndoType_on object v opt cache =
     (let opt' = default_obj opt;
          filled = fill_cache object cache
      in if truthy (hasSkip opt') then (None, Some filled)
         else (Some \<lparr> c_object = JRef (eid object), c_before = SAttrs filled,
                       c_after = SAttrs (toJSON object [''keepSymbols'' \<mapsto> JNum 1]),
                       c_options = None \<rparr>,
               None))"

definition customUndoType_undo ::
  "'w library \<Rightarrow> jsval \<Rightarrow> snapshot \<Rightarrow> snapshot \<Rightarrow> obj option \<Rightarrow> 'w \<Rightarrow> 'w" where
  "customUndoType_undo lib model bf af opt w = model_set lib model bf w"

definition customUndoType_redo ::
  "'w library \<Rightarrow> jsval \<Rightarrow> snapshot \<Rightarrow> snapshot \<Rightarrow> obj option \<Rightarrow> 'w \<Rightarrow> 'w" where
  "customUndoType_redo lib model bf af opt w = model_set lib model af w"

section \<open>The undo manager behind the module\<close>

fun split_names :: "string \<Rightarrow> string \<Rightarrow> string list" where
  "split_names cur [] = (if cur = [] then [] else [cur])"
| "split_names cur (c # cs) =
     (if c = CHR '' '' then (if cur = [] then [] else [cur]) @ split_names [] cs
      else split_names (cur @ [c]) cs)"

definition event_names :: "string \<Rightarrow> string list" where
  \<comment> \<open>An event string names several events, separated by spaces.\<close>
  "event_names names = split_names [] names"

fun register_arg :: "jsval \<Rightarrow> nat list" where
  "register_arg (JRef r) = [r]"
| "register_arg (JArr a xs) = concat (map register_arg xs)"
| "register_arg v = []"

definition new_UndoManager :: "obj \<Rightarrow> undo_manager" where
  \<comment> \<open>Modelled from the spec: the constructor of the undo library (absent from the
      sources), which builds the Tracking Registry, the Type Registry and the empty Command
      Stack of sections 2 and 3 from its attributes. The registry starts empty: the kinds
      it holds are those init registers, and a kind the library may ship beyond them is
      not modelled.\<close>
  "new_UndoManager attrs =
     \<lparr> um_attrs = attrs, track = truthy (get_prop attrs ''track''),
       registered = register_arg (get_prop attrs ''register''),
       undoTypes = Map.empty, stack = [], pointer = 0, currentGroupId = 0,
       listeners = [] \<rparr>"

definition changeUndoType :: "string \<Rightarrow> handler \<Rightarrow> undo_manager \<Rightarrow> undo_manager" where
  \<comment> \<open>Modelled from the spec: register(kind, handler) of section 4.1; the last
      registration for a kind wins.\<close>
  "changeUndoType k h u = u\<lparr>undoTypes := (undoTypes u)(k \<mapsto> h)\<rparr>"

definition addUndoType :: "string \<Rightarrow> handler \<Rightarrow> undo_manager \<Rightarrow> undo_manager" where
  \<comment> \<open>Modelled from the spec: register(kind, handler) of section 4.1.\<close>
  "addUndoType k h u = u\<lparr>undoTypes := (undoTypes u)(k \<mapsto> h)\<rparr>"

definition um_on :: "string \<Rightarrow> string \<Rightarrow> undo_manager \<Rightarrow> undo_manager" where
  \<comment> \<open>Modelled from the spec: the subscription to the notifications the engine emits
      (section 6). um.on(names, callback) subscribes the callback to each event named; the
      callbacks of the module all call em.trigger on one string, so a listener is stored as
      the event it waits for and that string.\<close>
  "um_on names cb u = u\<lparr>listeners := listeners u @ map (\<lambda>n. (n, cb)) (event_names names)\<rparr>"

section \<open>init and getConfig\<close>

definition init :: "obj option \<Rightarrow> 'w module \<Rightarrow> (error + ret) \<times> 'w module" where
  \<comment> \<open>The array literal of register is a new array, here at address 0; object spread
      lets the later operand win, as ++ does.\<close>
  "init opts s =
     (let config' = default_obj opts ++ configDef;
          em' = get_prop config' ''em'';
          um0 = new_UndoManager
                  ([''track'' \<mapsto> JBool True, ''register'' \<mapsto> JArr 0 []] ++ config');
          um1 = changeUndoType ''change'' ChangeType um0;
          um2 = changeUndoType ''add'' AddType um1;
          um3 = changeUndoType ''remove'' RemoveType um2;
          events = [''style'', ''attributes'', ''content'', ''src''];
          um4 = fold (\<lambda>ev. addUndoType (''change:'' @ ev) CustomUndoType) events um3;
          um5 = um_on ''undo redo'' ''component:toggled change:canvasOffset'' um4;
          um6 = fold (\<lambda>ev. um_on ev ev) [''undo'', ''redo''] um5
      in (Inr This, s\<lparr>config := Some config', em := em', this_em := em', um := Some um6\<rparr>))"

definition getConfig :: "'w module \<Rightarrow> obj option" where
  "getConfig s = config s"

definition maximumStackLength :: "undo_manager \<Rightarrow> jsval" where
  \<comment> \<open>The bound the undo manager works with: the attribute it was constructed with.\<close>
  "maximumStackLength u = get_prop (um_attrs u) ''maximumStackLength''"

section \<open>The Change Recorder\<close>

definition handler_condition :: "handler \<Rightarrow> entity \<Rightarrow> bool" where
  \<comment> \<open>Only the handler of change declares a condition.\<close>
  "handler_condition h object = (case h of ChangeType \<Rightarrow> condition object | _ \<Rightarrow> True)"

definition handler_on ::
  "handler \<Rightarrow> entity \<Rightarrow> jsval \<Rightarrow> obj option \<Rightarrow> obj option \<Rightarrow> capture option \<times> obj option" where
  \<comment> \<open>The on of each handler; those of add and remove never touch the cache.\<close>
  "handler_on h object v opt cache =
     (case h of
        ChangeType \<Rightarrow> change_on object v opt cache
      | AddType \<Rightarrow> (add_on object v opt, cache)
      | RemoveType \<Rightarrow> (remove_on object v opt, cache)
      | CustomUndoType \<Rightarrow> customUndoType_on object v opt cache)"

definition exceeds :: "nat \<Rightarrow> jsval \<Rightarrow> bool" where
  \<comment> \<open>length > bound; a bound that is not a number bounds nothing.\<close>
  "exceeds n bound = (case bound of JNum m \<Rightarrow> int n > m | _ \<Rightarrow> False)"

definition push :: "change_record \<Rightarrow> undo_manager \<Rightarrow> undo_manager" where
  \<comment> \<open>Modelled from the spec: push(record) of section 4.3 (the undo library is absent from
      the sources): truncate the tail at the pointer, append, advance the pointer by 1, evict
      the oldest record if over the bound.\<close>
  "push r u =
     (let st = take (pointer u) (stack u) @ [r];
          p = pointer u + 1
      in if exceeds (length st) (maximumStackLength u)
         then u\<lparr>stack := tl st, pointer := p - 1\<rparr>
         else u\<lparr>stack := st, pointer := p\<rparr>)"

definition make_record :: "string \<Rightarrow> nat \<Rightarrow> capture \<Rightarrow> change_record" where
  "make_record k g c =
     \<lparr> kind = k, target = c_object c, before = c_before c, after = c_after c,
       magicFusionIndex = g, options = c_options c \<rparr>"

definition notify :: "string \<Rightarrow> entity \<Rightarrow> jsval \<Rightarrow> obj option \<Rightarrow> 'w module \<Rightarrow> 'w module" where
  \<comment> \<open>Modelled from the spec: the Change Recorder of section 4.2 (the undo library is
      absent from the sources), on a notification of kind k whose arguments, in the order
      the on of the handler binds them, are object, v and opt (None when there is no third
      argument). Its first step, the test of the suppression flags, is the one the handlers
      of the module make themselves; a stopped recorder (section 4.5) records nothing.\<close>
  "notify k object v opt s =
     (case um s of
        None \<Rightarrow> s
      | Some u \<Rightarrow>
          if \<not> track u then s
          else (case undoTypes u k of
                  None \<Rightarrow> s
                | Some h \<Rightarrow>
                    if \<not> handler_condition h object then s
                    else (let res = handler_on h object v opt (beforeCache s)
                          in case fst res of
                               None \<Rightarrow> s\<lparr>beforeCache := snd res\<rparr>
                             | Some c \<Rightarrow>
                                 s\<lparr>beforeCache := snd res,
                                   um := Some (push (make_record k (currentGroupId u) c) u)\<rparr>)))"

text \<open>
  The notifications of the tracked entities are Backbone events, and the recorder hands
  the arguments of the event to the on of the handler as they come. A change of one
  attribute, an add and a remove carry three arguments: the model, the value or the
  collection, and the options. The general change event carries two: the model and the
  options. The options are an object, here the list of its properties.
\<close>

datatype event =
    OnChange entity "(string \<times> jsval) list"
  | OnChangeAttr string entity jsval "(string \<times> jsval) list"
  | OnAdd entity jsval "(string \<times> jsval) list"
  | OnRemove entity jsval "(string \<times> jsval) list"

fun event_options :: "event \<Rightarrow> (string \<times> jsval) list" where
  "event_options (OnChange model opts) = opts"
| "event_options (OnChangeAttr a model v opts) = opts"
| "event_options (OnAdd model collection opts) = opts"
| "event_options (OnRemove model collection opts) = opts"

fun dispatch :: "event \<Rightarrow> 'w module \<Rightarrow> 'w module" where
  "dispatch (OnChange model opts) s = notify ''change'' model (JObj opts) None s"
| "dispatch (OnChangeAttr a model v opts) s = notify (''change:'' @ a) model v (Some (map_of opts)) s"
| "dispatch (OnAdd model collection opts) s = notify ''add'' model collection (Some (map_of opts)) s"
| "dispatch (OnRemove model collection opts) s = notify ''remove'' model collection (Some (map_of opts)) s"

section \<open>The Command Stack\<close>

definition record_at :: "undo_manager \<Rightarrow> nat \<Rightarrow> change_record option" where
  "record_at u i = (if i < length (stack u) then Some (stack u ! i) else None)"

definition applyUndo :: "'w library \<Rightarrow> undo_manager \<Rightarrow> change_record \<Rightarrow> 'w \<Rightarrow> 'w" where
  \<comment> \<open>Modelled from the spec: the applyUndo of the handler the Type Registry resolves for
      the kind of the record (section 3). The change:style family has the undo of
      customUndoType; change, add and remove keep the undo of the library.\<close>
  "applyUndo lib u r w =
     (case undoTypes u (kind r) of
        Some CustomUndoType \<Rightarrow>
          customUndoType_undo lib (target r) (before r) (after r) (options r) w
      | Some h \<Rightarrow> default_undo lib r w
      | None \<Rightarrow> w)"

definition applyRedo :: "'w library \<Rightarrow> undo_manager \<Rightarrow> change_record \<Rightarrow> 'w \<Rightarrow> 'w" where
  \<comment> \<open>Modelled from the spec: the applyRedo of the handler resolved for the kind.\<close>
  "applyRedo lib u r w =
     (case undoTypes u (kind r) of
        Some CustomUndoType \<Rightarrow>
          customUndoType_redo lib (target r) (before r) (after r) (options r) w
      | Some h \<Rightarrow> default_redo lib r w
      | None \<Rightarrow> w)"

definition undo_step :: "'w library \<Rightarrow> undo_manager \<times> 'w \<Rightarrow> undo_manager \<times> 'w" where
  \<comment> \<open>Modelled from the spec: one step of undo in section 4.3: decrement the pointer,
      invoke applyUndo on the record at the new pointer.\<close>
  "undo_step lib uw =
     (let u = fst uw; p = pointer u - 1
      in (u\<lparr>pointer := p\<rparr>,
          (case record_at u p of None \<Rightarrow> snd uw | Some r \<Rightarrow> applyUndo lib u r (snd uw))))"

definition redo_step :: "'w library \<Rightarrow> undo_manager \<times> 'w \<Rightarrow> undo_manager \<times> 'w" where
  \<comment> \<open>Modelled from the spec: one step of redo in section 4.3: invoke applyRedo on the
      record at the pointer, increment the pointer.\<close>
  "redo_step lib uw =
     (let u = fst uw; p = pointer u
      in (u\<lparr>pointer := p + 1\<rparr>,
          (case record_at u p of None \<Rightarrow> snd uw | Some r \<Rightarrow> applyRedo lib u r (snd uw))))"

text \<open>
  Modelled from the spec: the loops of undo and redo in section 4.3. A loop goes on while
  there is history in its direction and the record it would replay next is accepted by
  \<open>cont\<close>: every record for undoAll and redoAll, the records of one group for a grouped
  undo or redo (section 4.4).
\<close>

function undo_loop ::
  "'w library \<Rightarrow> (change_record option \<Rightarrow> bool) \<Rightarrow> undo_manager \<times> 'w \<Rightarrow> undo_manager \<times> 'w" where
  "undo_loop lib cont uw =
     (if 0 < pointer (fst uw) \<and> cont (record_at (fst uw) (pointer (fst uw) - 1))
      then undo_loop lib cont (undo_step lib uw)
      else uw)"
  by pat_completeness auto
termination
  by (relation "measure (\<lambda>(lib, cont, uw). pointer (fst uw))") (auto simp: undo_step_def Let_def)

declare undo_loop.simps [simp del]

function redo_loop ::
  "'w library \<Rightarrow> (change_record option \<Rightarrow> bool) \<Rightarrow> undo_manager \<times> 'w \<Rightarrow> undo_manager \<times> 'w" where
  "redo_loop lib cont uw =
     (if pointer (fst uw) < length (stack (fst uw)) \<and> cont (record_at (fst uw) (pointer (fst uw)))
      then redo_loop lib cont (redo_step lib uw)
      else uw)"
  by pat_completeness auto
termination
  by (relation "measure (\<lambda>(lib, cont, uw). length (stack (fst uw)) - pointer (fst uw))")
    (auto simp: redo_step_def Let_def)

declare redo_loop.simps [simp del]

section \<open>Events towards the host\<close>

definition em_isEditing :: "'w module \<Rightarrow> error + bool" where
  \<comment> \<open>em.isEditing(): what the editor reports; a TypeError when em is not the editor
      (undefined has no method to call).\<close>
  "em_isEditing s =
     (if em s = JRef (host_id (editor s)) then Inr (editing (editor s)) else Inl TypeError)"

definition em_trigger :: "string \<Rightarrow> 'w module \<Rightarrow> error + 'w module" where
  \<comment> \<open>em.trigger(names): every event named reaches the bus of the editor, in order.\<close>
  "em_trigger names s =
     (if em s = JRef (host_id (editor s))
      then Inr (s\<lparr>editor := (editor s)\<lparr>triggered := triggered (editor s) @ event_names names\<rparr>\<rparr>)
      else Inl TypeError)"

fun run_listeners :: "(string \<times> string) list \<Rightarrow> string \<Rightarrow> 'w module \<Rightarrow> error option \<times> 'w module" where
  "run_listeners [] ev s = (None, s)"
| "run_listeners (l # ls) ev s =
     (if fst l = ev
      then (case em_trigger (snd l) s of
              Inl e \<Rightarrow> (Some e, s)
            | Inr s' \<Rightarrow> run_listeners ls ev s')
      else run_listeners ls ev s)"

definition um_trigger :: "string \<Rightarrow> 'w module \<Rightarrow> error option \<times> 'w module" where
  \<comment> \<open>Modelled from the spec: the undo manager emits an event (section 6): its listeners
      run in the order of registration, and an error of one of them ends the emission.\<close>
  "um_trigger ev s =
     (case um s of None \<Rightarrow> (None, s) | Some u \<Rightarrow> run_listeners (listeners u) ev s)"

section \<open>Operations of the undo manager\<close>

definition same_group :: "change_record option \<Rightarrow> change_record option \<Rightarrow> bool" where
  "same_group a b =
     (case a of
        None \<Rightarrow> False
      | Some x \<Rightarrow> (case b of None \<Rightarrow> False | Some y \<Rightarrow> magicFusionIndex x = magicFusionIndex y))"

definition um_undo :: "'w library \<Rightarrow> jsval \<Rightarrow> 'w module \<Rightarrow> error option \<times> 'w module" where
  \<comment> \<open>Modelled from the spec: undo of sections 4.3 and 4.4 (the undo library is absent
      from the sources). With no history it is a no-op; one record is undone, and with the
      flag set the contiguous records of its group with it; the undo event follows
      (section 6).\<close>
  "um_undo lib magic s =
     (case um s of
        None \<Rightarrow> (Some TypeError, s)
      | Some u \<Rightarrow>
          if pointer u = 0 then (None, s)
          else (let first = undo_step lib (u, world s);
                    uw = (if truthy magic
                          then undo_loop lib (same_group (record_at u (pointer u - 1))) first
                          else first)
                in um_trigger ''undo'' (s\<lparr>um := Some (fst uw), world := snd uw\<rparr>)))"

definition um_redo :: "'w library \<Rightarrow> jsval \<Rightarrow> 'w module \<Rightarrow> error option \<times> 'w module" where
  \<comment> \<open>Modelled from the spec: redo of sections 4.3 and 4.4, symmetric to undo.\<close>
  "um_redo lib magic s =
     (case um s of
        None \<Rightarrow> (Some TypeError, s)
      | Some u \<Rightarrow>
          if \<not> pointer u < length (stack u) then (None, s)
          else (let first = redo_step lib (u, world s);
                    uw = (if truthy magic
                          then redo_loop lib (same_group (record_at u (pointer u))) first
                          else first)
                in um_trigger ''redo'' (s\<lparr>um := Some (fst uw), world := snd uw\<rparr>)))"

definition um_undoAll :: "'w library \<Rightarrow> 'w module \<Rightarrow> error option \<times> 'w module" where
  \<comment> \<open>Modelled from the spec: undoAll of section 4.3: repeat until exhausted.\<close>
  "um_undoAll lib s =
     (case um s of
        None \<Rightarrow> (Some TypeError, s)
      | Some u \<Rightarrow>
          if pointer u = 0 then (None, s)
          else (let uw = undo_loop lib (\<lambda>r. True) (u, world s)
                in um_trigger ''undo'' (s\<lparr>um := Some (fst uw), world := snd uw\<rparr>)))"

definition um_redoAll :: "'w library \<Rightarrow> 'w module \<Rightarrow> error option \<times> 'w module" where
  \<comment> \<open>Modelled from the spec: redoAll of section 4.3: repeat until exhausted.\<close>
  "um_redoAll lib s =
     (case um s of
        None \<Rightarrow> (Some TypeError, s)
      | Some u \<Rightarrow>
          if \<not> pointer u < length (stack u) then (None, s)
          else (let uw = redo_loop lib (\<lambda>r. True) (u, world s)
                in um_trigger ''redo'' (s\<lparr>um := Some (fst uw), world := snd uw\<rparr>)))"

definition um_clear :: "undo_manager \<Rightarrow> undo_manager" where
  \<comment> \<open>Modelled from the spec: clear() of section 4.3: empty the stack, reset the pointer
      to 0, leave the registration alone.\<close>
  "um_clear u = u\<lparr>stack := [], pointer := 0\<rparr>"

definition um_register :: "nat \<Rightarrow> undo_manager \<Rightarrow> undo_manager" where
  \<comment> \<open>Modelled from the spec: the Tracking Registry of section 2.\<close>
  "um_register e u = (if e \<in> set (registered u) then u else u\<lparr>registered := registered u @ [e]\<rparr>)"

definition um_unregister :: "nat \<Rightarrow> undo_manager \<Rightarrow> undo_manager" where
  \<comment> \<open>Modelled from the spec: the Tracking Registry of section 2.\<close>
  "um_unregister e u = u\<lparr>registered := filter (\<lambda>x. x \<noteq> e) (registered u)\<rparr>"

definition um_unregisterAll :: "undo_manager \<Rightarrow> undo_manager" where
  \<comment> \<open>Modelled from the spec: the Tracking Registry of section 2.\<close>
  "um_unregisterAll u = u\<lparr>registered := []\<rparr>"

definition um_isAvailable :: "string \<Rightarrow> undo_manager \<Rightarrow> bool" where
  \<comment> \<open>Modelled from the spec: isAvailable of section 4.3.\<close>
  "um_isAvailable direction u =
     (if direction = ''undo'' then 0 < pointer u
      else if direction = ''redo'' then pointer u < length (stack u)
      else False)"

section \<open>The public operations\<close>

definition default_true :: "jsval option \<Rightarrow> jsval" where
  \<comment> \<open>A parameter declared all = true: true when the argument is omitted or undefined.\<close>
  "default_true p = (case p of None \<Rightarrow> JBool True | Some a \<Rightarrow> (if a = JUndefined then JBool True else a))"

definition with_um :: "(undo_manager \<Rightarrow> undo_manager) \<Rightarrow> 'w module \<Rightarrow> (error + ret) \<times> 'w module" where
  \<comment> \<open>um.method(...); return this: a TypeError while um is undefined.\<close>
  "with_um f s =
     (case um s of None \<Rightarrow> (Inl TypeError, s) | Some u \<Rightarrow> (Inr This, s\<lparr>um := Some (f u)\<rparr>))"

definition returning_this :: "error option \<times> 'w module \<Rightarrow> (error + ret) \<times> 'w module" where
  "returning_this r = (case fst r of Some e \<Rightarrow> (Inl e, snd r) | None \<Rightarrow> (Inr This, snd r))"

definition add_entity :: "nat \<Rightarrow> 'w module \<Rightarrow> (error + ret) \<times> 'w module" where
  "add_entity e s = with_um (um_register e) s"

definition remove_entity :: "nat \<Rightarrow> 'w module \<Rightarrow> (error + ret) \<times> 'w module" where
  "remove_entity e s = with_um (um_unregister e) s"

definition removeAll_entities :: "'w module \<Rightarrow> (error + ret) \<times> 'w module" where
  "removeAll_entities s = with_um um_unregisterAll s"

definition start :: "'w module \<Rightarrow> (error + ret) \<times> 'w module" where
  "start s = with_um (\<lambda>u. u\<lparr>track := True\<rparr>) s"

definition stop :: "'w module \<Rightarrow> (error + ret) \<times> 'w module" where
  "stop s = with_um (\<lambda>u. u\<lparr>track := False\<rparr>) s"

definition undo :: "'w library \<Rightarrow> jsval option \<Rightarrow> 'w module \<Rightarrow> (error + ret) \<times> 'w module" where
  "undo lib all s =
     (let all' = default_true all
      in case em_isEditing s of
           Inl e \<Rightarrow> (Inl e, s)
         | Inr isEditing \<Rightarrow>
             if \<not> isEditing then returning_this (um_undo lib all' s) else (Inr This, s))"

definition undoAll :: "'w library \<Rightarrow> 'w module \<Rightarrow> (error + ret) \<times> 'w module" where
  "undoAll lib s = returning_this (um_undoAll lib s)"

definition redo :: "'w library \<Rightarrow> jsval option \<Rightarrow> 'w module \<Rightarrow> (error + ret) \<times> 'w module" where
  "redo lib all s =
     (let all' = default_true all
      in case em_isEditing s of
           Inl e \<Rightarrow> (Inl e, s)
         | Inr isEditing \<Rightarrow>
             if \<not> isEditing then returning_this (um_redo lib all' s) else (Inr This, s))"

definition redoAll :: "'w library \<Rightarrow> 'w module \<Rightarrow> (error + ret) \<times> 'w module" where
  "redoAll lib s = returning_this (um_redoAll lib s)"

definition hasUndo :: "'w module \<Rightarrow> error + bool" where
  "hasUndo s = (case um s of None \<Rightarrow> Inl TypeError | Some u \<Rightarrow> Inr (um_isAvailable ''undo'' u))"

definition hasRedo :: "'w module \<Rightarrow> error + bool" where
  "hasRedo s = (case um s of None \<Rightarrow> Inl TypeError | Some u \<Rightarrow> Inr (um_isAvailable ''redo'' u))"

definition getStack :: "'w module \<Rightarrow> error + change_record list" where
  "getStack s = (case um s of None \<Rightarrow> Inl TypeError | Some u \<Rightarrow> Inr (stack u))"

definition group_item :: "change_record \<Rightarrow> change_record list \<times> nat list \<Rightarrow> change_record list \<times> nat list" where
  \<comment> \<open>The body of the forEach of getStackGroup, on the pair (result, inserted).\<close>
  "group_item item acc =
     (let index = magicFusionIndex item
      in if indexOf_by (=) (snd acc) index < 0
         then (fst acc @ [item], snd acc @ [index])
         else acc)"

definition stack_group :: "change_record list \<Rightarrow> change_record list" where
  "stack_group st = fst (fold group_item st ([], []))"

definition getStackGroup :: "'w module \<Rightarrow> error + change_record list" where
  "getStackGroup s = (case getStack s of Inl e \<Rightarrow> Inl e | Inr st \<Rightarrow> Inr (stack_group st))"

definition getPointer :: "'w module \<Rightarrow> error + nat" where
  "getPointer s = (case um s of None \<Rightarrow> Inl TypeError | Some u \<Rightarrow> Inr (pointer u))"

definition clear :: "'w module \<Rightarrow> (error + ret) \<times> 'w module" where
  "clear s = with_um um_clear s"

definition getInstance :: "'w module \<Rightarrow> undo_manager option" where
  "getInstance s = um s"

datatype closure_value =
    VEm jsval
  | VUm "undo_manager option"
  | VConfig "obj option"
  | VCache "obj option"

definition release :: "closure_value \<Rightarrow> 'w module \<Rightarrow> 'w module" where
  \<comment> \<open>i => (i = {}): the arrow function assigns the empty object to its own parameter
      i, a copy of the value held in the array; no variable of the closure is written.\<close>
  "release i s = (let i' = JObj [] in s)"

definition destroy :: "'w module \<Rightarrow> (error + ret) \<times> 'w module" where
  "destroy s =
     (case clear s of
        (Inl e, s1) \<Rightarrow> (Inl e, s1)
      | (Inr r1, s1) \<Rightarrow>
          (case removeAll_entities s1 of
             (Inl e, s2) \<Rightarrow> (Inl e, s2)
           | (Inr r2, s2) \<Rightarrow>
               (let s3 = fold release
                           [VEm (em s2), VUm (um s2), VConfig (config s2), VCache (beforeCache s2)] s2
                in (Inr Undefined, s3\<lparr>this_em := JObj []\<rparr>))))"

section \<open>The reduced view as the specification words it\<close>

text \<open>
  Section 4.4 of the specification: iterate the records in stack order and keep only the
  first record encountered for each distinct group identifier. A record is kept when no
  record before it carries its group identifier.
\<close>

definition first_of_group :: "change_record list \<Rightarrow> nat \<Rightarrow> bool" where
  "first_of_group st i =
     list_all (\<lambda>j. magicFusionIndex (st ! j) \<noteq> magicFusionIndex (st ! i)) [0..<i]"

definition spec_stack_group :: "change_record list \<Rightarrow> change_record list" where
  "spec_stack_group st = map (\<lambda>i. st ! i) (filter (first_of_group st) [0..<length st])"

fun keep_first :: "nat set \<Rightarrow> change_record list \<Rightarrow> change_record list" where
  "keep_first seen [] = []"
| "keep_first seen (r # rs) =
     (if magicFusionIndex r \<in> seen then keep_first seen rs
      else r # keep_first (insert (magicFusionIndex r) seen) rs)"

section \<open>Sequences of notifications\<close>

text \<open>
  A notification as a handler receives it, and the delivery of a sequence of them: each
  on runs on the cache its predecessor left.
\<close>

record notification =
  n_handler :: handler
  n_object :: entity
  n_value :: jsval
  n_opt :: "obj option"

fun deliver :: "notification list \<Rightarrow> obj option \<Rightarrow> capture option list \<times> obj option" where
  "deliver [] cache = ([], cache)"
| "deliver (n # ns) cache =
     (let res = handler_on (n_handler n) (n_object n) (n_value n) (n_opt n) cache;
          rest = deliver ns (snd res)
      in (fst res # fst rest, snd rest))"

definition init_listeners :: "(string \<times> string) list" where
  \<comment> \<open>The listeners init leaves on the undo manager, read off a module just initialised.\<close>
  "init_listeners =
     (case um (snd (init None (fresh_module \<lparr>host_id = 0, editing = False, triggered = []\<rparr> ()))) of
        None \<Rightarrow> [] | Some u \<Rightarrow> listeners u)"

section \<open>Concrete modules and entities\<close>

text \<open>
  An instance of the library parameter on a store of attribute objects: set merges the
  attributes given into those of the model, and the undo and redo of the library restore
  the snapshot before and after.
\<close>

definition store_set :: "jsval \<Rightarrow> snapshot \<Rightarrow> (nat \<rightharpoonup> obj) \<Rightarrow> (nat \<rightharpoonup> obj)" where
  "store_set m snap w =
     (case m of
        JRef r \<Rightarrow> (case snap of
                     SAttrs a \<Rightarrow> w(r \<mapsto> (case w r of None \<Rightarrow> a | Some old \<Rightarrow> old ++ a))
                   | _ \<Rightarrow> w)
      | _ \<Rightarrow> w)"

definition store_lib :: "(nat \<rightharpoonup> obj) library" where
  "store_lib =
     \<lparr> model_set = store_set,
       default_undo = (\<lambda>r. store_set (target r) (before r)),
       default_redo = (\<lambda>r. store_set (target r) (after r)) \<rparr>"

definition demo_host :: host where
  "demo_host = \<lparr> host_id = 1, editing = False, triggered = [] \<rparr>"

definition demo_module :: "(nat \<rightharpoonup> obj) module" where
  \<comment> \<open>init({ em, maximumStackLength: 10 }) on a fresh module.\<close>
  "demo_module = snd (init (Some [''em'' \<mapsto> JRef 1, ''maximumStackLength'' \<mapsto> JNum 10])
                        (fresh_module demo_host Map.empty))"

definition names_entity :: entity where
  \<comment> \<open>A model whose _undo marker is the list ['color'] and whose color has just changed.\<close>
  "names_entity =
     \<lparr> eid = 2,
       attributes = [''_undo'' \<mapsto> JArr 7 [JStr ''color''], ''color'' \<mapsto> JStr ''blue''],
       previous = [''_undo'' \<mapsto> JArr 7 [JStr ''color''], ''color'' \<mapsto> JStr ''red''],
       changed = [(''color'', JStr ''blue'')],
       toJSON = (\<lambda>opts. [''color'' \<mapsto> JStr ''blue'']) \<rparr>"

definition entity_A :: entity where
  "entity_A =
     \<lparr> eid = 3, attributes = [''color'' \<mapsto> JStr ''blue''],
       previous = [''color'' \<mapsto> JStr ''red''],
       changed = [(''color'', JStr ''blue'')],
       toJSON = (\<lambda>opts. [''color'' \<mapsto> JStr ''blue'']) \<rparr>"

definition entity_B :: entity where
  "entity_B =
     \<lparr> eid = 4, attributes = [''width'' \<mapsto> JNum 20],
       previous = [''width'' \<mapsto> JNum 10],
       changed = [(''width'', JNum 20)],
       toJSON = (\<lambda>opts. [''width'' \<mapsto> JNum 20]) \<rparr>"

definition marked_entity :: entity where
  \<comment> \<open>A model whose _undo marker is true and whose color has just changed.\<close>
  "marked_entity =
     \<lparr> eid = 5,
       attributes = [''_undo'' \<mapsto> JBool True, ''color'' \<mapsto> JStr ''blue''],
       previous = [''_undo'' \<mapsto> JBool True, ''color'' \<mapsto> JStr ''red''],
       changed = [(''color'', JStr ''blue'')],
       toJSON = (\<lambda>opts. [''_undo'' \<mapsto> JBool True, ''color'' \<mapsto> JStr ''blue'']) \<rparr>"

definition noUndo_options :: "(string \<times> jsval) list" where
  "noUndo_options = [(''noUndo'', JBool True)]"

definition skip_opts :: "obj option" where
  "skip_opts = Some [''avoidStore'' \<mapsto> JNum 1]"

definition used_module :: "(nat \<rightharpoonup> obj) module" where
  \<comment> \<open>After init: entity 4 is registered, a style change of B is recorded, then a style
      change of A arrives with avoidStore.\<close>
  "used_module =
     notify ''change:style'' entity_A (JObj []) skip_opts
       (notify ''change:style'' entity_B (JObj []) None (snd (add_entity 4 demo_module)))"

definition used_um :: undo_manager where
  "used_um = (case um used_module of None \<Rightarrow> new_UndoManager Map.empty | Some u \<Rightarrow> u)"

definition undone_module :: "(nat \<rightharpoonup> obj) module" where
  "undone_module = used_module\<lparr>um := Some (used_um\<lparr>pointer := 0\<rparr>)\<rparr>"

definition editing_module :: "(nat \<rightharpoonup> obj) module" where
  "editing_module = used_module\<lparr>editor := (editor used_module)\<lparr>editing := True\<rparr>\<rparr>"

definition editing_undone_module :: "(nat \<rightharpoonup> obj) module" where
  "editing_undone_module = undone_module\<lparr>editor := (editor undone_module)\<lparr>editing := True\<rparr>\<rparr>"

definition group_record :: "nat \<Rightarrow> nat \<Rightarrow> change_record" where
  "group_record t g =
     \<lparr> kind = ''add'', target = JRef 0, before = SUndefined, after = SModel t,
       magicFusionIndex = g, options = None \<rparr>"

definition demo_stack :: "change_record list" where
  "demo_stack = [group_record 1 7, group_record 2 7, group_record 3 8]"

section \<open>Facts about the concrete modules\<close>

lemma init_config:
  "config (snd (init opts s)) = Some (default_obj opts ++ configDef)"
  by (simp add: init_def Let_def)

lemma init_maximumStackLength:
  "map_option (\<lambda>c. get_prop c ''maximumStackLength'') (getConfig (snd (init opts s))) = Some (JNum 500)"
  by (simp add: getConfig_def init_config configDef_def get_prop_def)

lemma init_listeners_eq:
  "init_listeners =
     [(''undo'', ''component:toggled change:canvasOffset''),
      (''redo'', ''component:toggled change:canvasOffset''),
      (''undo'', ''undo''), (''redo'', ''redo'')]"
  by (simp add: init_listeners_def init_def Let_def um_on_def addUndoType_def changeUndoType_def
      new_UndoManager_def event_names_def)

lemma init_listens:
  "um (snd (init opts s)) = Some u \<Longrightarrow> listeners u = init_listeners"
  by (auto simp: init_listeners_eq init_def Let_def um_on_def addUndoType_def changeUndoType_def
      new_UndoManager_def event_names_def)

lemma hasSkip_flags:
  "truthy (hasSkip ob) \<longleftrightarrow> truthy (get_prop ob ''avoidStore'') \<or> truthy (get_prop ob ''noUndo'')"
  by (simp add: hasSkip_def js_or_def)

lemma skip_opts_suppressed: "truthy (hasSkip (default_obj skip_opts))"
  by (simp add: skip_opts_def hasSkip_def default_obj_def get_prop_def js_or_def)

lemma no_opts_unsuppressed: "\<not> truthy (hasSkip (default_obj None))"
  by (simp add: hasSkip_def default_obj_def get_prop_def js_or_def)

lemma demo_um:
  "\<exists>u. um demo_module = Some u \<and> track u \<and> stack u = [] \<and> pointer u = 0
       \<and> registered u = []
       \<and> undoTypes u ''change'' = Some ChangeType
       \<and> undoTypes u ''change:style'' = Some CustomUndoType
       \<and> maximumStackLength u = JNum 500 \<and> listeners u = init_listeners"
  by (simp add: demo_module_def init_def Let_def um_on_def addUndoType_def changeUndoType_def
      new_UndoManager_def event_names_def get_prop_def default_obj_def configDef_def
      maximumStackLength_def init_listeners_eq fresh_module_def)

lemma demo_fields:
  "em demo_module = JRef 1" "editor demo_module = demo_host" "beforeCache demo_module = None"
  by (simp_all add: demo_module_def init_def Let_def fresh_module_def get_prop_def default_obj_def
      configDef_def)

lemma used_module_fields:
  "em used_module = JRef 1" "editor used_module = demo_host"
  "config used_module = config demo_module"
  "beforeCache used_module = Some (previousAttributes entity_A)"
  "\<exists>u. um used_module = Some u \<and> length (stack u) = 1 \<and> pointer u = 1 \<and> registered u = [4]
       \<and> listeners u = init_listeners"
proof -
  obtain u where u: "um demo_module = Some u" "track u" "stack u = []" "pointer u = 0"
      "registered u = []"
      "undoTypes u ''change:style'' = Some CustomUndoType" "maximumStackLength u = JNum 500"
      "listeners u = init_listeners"
    using demo_um by blast
  let ?u1 = "um_register 4 u"
  let ?s1 = "snd (add_entity 4 demo_module)"
  have s1: "?s1 = demo_module\<lparr>um := Some ?u1\<rparr>"
    using u by (simp add: add_entity_def with_um_def)
  let ?r = "make_record ''change:style'' (currentGroupId u)
                 \<lparr> c_object = JRef (eid entity_B), c_before = SAttrs (previousAttributes entity_B),
                   c_after = SAttrs (toJSON entity_B [''keepSymbols'' \<mapsto> JNum 1]),
                   c_options = None \<rparr>"
  let ?s2 = "notify ''change:style'' entity_B (JObj []) None ?s1"
  have s2: "?s2 = demo_module\<lparr>beforeCache := None, um := Some (push ?r ?u1)\<rparr>"
    unfolding s1 using u no_opts_unsuppressed
    by (simp add: notify_def handler_condition_def handler_on_def customUndoType_on_def
        fill_cache_def Let_def um_register_def demo_fields)
  have p: "track (push ?r ?u1)" "undoTypes (push ?r ?u1) ''change:style'' = Some CustomUndoType"
      "length (stack (push ?r ?u1)) = 1" "pointer (push ?r ?u1) = 1"
      "registered (push ?r ?u1) = [4]" "listeners (push ?r ?u1) = init_listeners"
    using u by (simp_all add: push_def um_register_def exceeds_def Let_def maximumStackLength_def)
  have s3: "used_module = demo_module\<lparr>beforeCache := Some (previousAttributes entity_A),
                                      um := Some (push ?r ?u1)\<rparr>"
    unfolding used_module_def s2 using p skip_opts_suppressed
    by (simp add: notify_def handler_condition_def handler_on_def customUndoType_on_def
        fill_cache_def Let_def)
  show "em used_module = JRef 1" "editor used_module = demo_host"
    "config used_module = config demo_module"
    "beforeCache used_module = Some (previousAttributes entity_A)"
    by (simp_all add: s3 demo_fields)
  show "\<exists>u. um used_module = Some u \<and> length (stack u) = 1 \<and> pointer u = 1 \<and> registered u = [4]
       \<and> listeners u = init_listeners"
    using p by (simp add: s3)
qed

lemma used_um_facts:
  "um used_module = Some used_um" "length (stack used_um) = 1" "pointer used_um = 1"
  "listeners used_um = init_listeners"
  using used_module_fields(5) by (auto simp: used_um_def)

section \<open>The configuration\<close>

text \<open>
  C1. The claim: a maximumStackLength the caller supplies is the one in effect and the one
  getConfig returns, 500 being the default. In init the defaults are spread after the
  options, so they win: with maximumStackLength 10 supplied, getConfig returns 500 and
  the undo manager is constructed with 500.
\<close>

theorem maximumStackLength_supplied_is_overridden:
  "map_option (\<lambda>c. get_prop c ''maximumStackLength'') (getConfig demo_module) = Some (JNum 500)
   \<and> map_option maximumStackLength (getInstance demo_module) = Some (JNum 500)"
  by (simp add: demo_module_def init_def getConfig_def getInstance_def fresh_module_def configDef_def
      get_prop_def default_obj_def Let_def maximumStackLength_def um_on_def addUndoType_def
      changeUndoType_def new_UndoManager_def)

section \<open>The condition of the change handler\<close>

lemma indexOf_by_self_names:
  "\<forall>x \<in> set xs. \<exists>n. x = JStr n \<Longrightarrow> indexOf_by strict_eq xs (JArr a ys) = -1"
  by (induction xs) (auto simp: Let_def)

lemma condition_boolean:
  "get_prop (attributes object) ''_undo'' = JBool b \<Longrightarrow> condition object = b"
  by (simp add: condition_def Let_def)

lemma condition_absent:
  "attributes object ''_undo'' = None \<Longrightarrow> condition object = False"
  by (simp add: condition_def get_prop_def Let_def)

lemma condition_names:
  "get_prop (attributes object) ''_undo'' = JArr a xs \<Longrightarrow> \<forall>x \<in> set xs. \<exists>n. x = JStr n \<Longrightarrow>
   condition object = False"
  by (simp add: condition_def Let_def indexOf_def indexOf_by_self_names list_ex_iff)

text \<open>
  C2. The claim: with a list of attribute names as marker, the condition is true exactly
  when a changed attribute is in the list. The condition looks the list up in itself
  instead of the changed attribute, so it is false on a model whose marker is the list
  ['color'] and whose changed attribute is color.
\<close>

theorem condition_false_on_listed_attribute:
  "condition names_entity = False
   \<and> get_prop (attributes names_entity) ''_undo'' = JArr 7 [JStr ''color'']
   \<and> map fst (changedAttributes names_entity) = [''color'']"
  by (simp add: condition_def names_entity_def get_prop_def indexOf_def changedAttributes_def Let_def)

section \<open>Suppressed mutations\<close>

lemma handlers_skip_flagged_opt:
  assumes "truthy (get_prop (default_obj opt) ''avoidStore'')
           \<or> truthy (get_prop (default_obj opt) ''noUndo'')"
  shows "fst (change_on object v opt cache) = None
       \<and> add_on object v opt = None
       \<and> remove_on object v opt = None
       \<and> fst (customUndoType_on object v opt cache) = None
       \<and> um (notify k object v opt s) = um s"
proof -
  from assms have "truthy (hasSkip (default_obj opt))" by (simp add: hasSkip_flags)
  then show ?thesis
    by (auto simp: change_on_def add_on_def remove_on_def customUndoType_on_def notify_def
        handler_on_def Let_def split: option.splits handler.splits)
qed

lemma three_argument_events_skip:
  assumes "truthy (get_prop (map_of opts) ''avoidStore'') \<or> truthy (get_prop (map_of opts) ''noUndo'')"
  shows "um (dispatch (OnChangeAttr a model v opts) s) = um s"
    and "um (dispatch (OnAdd model collection opts) s) = um s"
    and "um (dispatch (OnRemove model collection opts) s) = um s"
proof -
  have h: "truthy (get_prop (default_obj (Some (map_of opts))) ''avoidStore'')
           \<or> truthy (get_prop (default_obj (Some (map_of opts))) ''noUndo'')"
    using assms by (simp add: default_obj_def)
  have n: "um (notify k object w (Some (map_of opts)) s) = um s" for k object w
    using handlers_skip_flagged_opt[OF h] by blast
  show "um (dispatch (OnChangeAttr a model v opts) s) = um s"
    and "um (dispatch (OnAdd model collection opts) s) = um s"
    and "um (dispatch (OnRemove model collection opts) s) = um s"
    by (simp_all only: dispatch.simps n)
qed

lemma change_on_two_arguments:
  "fst (change_on object (JObj opts) None cache) \<noteq> None"
  by (simp add: change_on_def default_obj_def hasSkip_def get_prop_def js_or_def Let_def)

text \<open>
  C3. The claim: a notification whose options carry the avoidStore flag or the noUndo flag
  produces no record, for the handlers of change, add, remove and the change:style family.
  The handlers of add, remove and the change:style family read the flags from their third
  argument, where these events carry the options. The handler of change reads its third
  argument as well, but the change event carries the options second: the flags reach the
  handler as v, opt is the empty default, and the change is recorded. On the module just
  initialised, a change of a model marked _undo: true with the options { noUndo: true }
  puts a record on the stack; the same options on a change:style of the same model do not.
\<close>

theorem flagged_change_is_recorded:
  "truthy (get_prop (map_of (event_options (OnChange marked_entity noUndo_options))) ''noUndo'')
   \<and> getStack demo_module = Inr []
   \<and> map_sum id (map (\<lambda>r. (kind r, target r)))
         (getStack (dispatch (OnChange marked_entity noUndo_options) demo_module)) =
       Inr [(''change'', JRef (eid marked_entity))]
   \<and> getStack (dispatch (OnChangeAttr ''style'' marked_entity (JObj []) noUndo_options) demo_module) =
       Inr []"
proof -
  obtain u where u: "um demo_module = Some u" "track u" "stack u = []" "pointer u = 0"
      "undoTypes u ''change'' = Some ChangeType"
      "undoTypes u ''change:style'' = Some CustomUndoType" "maximumStackLength u = JNum 500"
    using demo_um by blast
  have c: "condition marked_entity"
    by (simp add: condition_def marked_entity_def get_prop_def Let_def)
  have f: "truthy (get_prop (map_of noUndo_options) ''noUndo'')"
    by (simp add: noUndo_options_def get_prop_def)
  have a: "getStack demo_module = Inr []"
    using u by (simp add: getStack_def)
  have b: "map_sum id (map (\<lambda>r. (kind r, target r)))
         (getStack (dispatch (OnChange marked_entity noUndo_options) demo_module)) =
       Inr [(''change'', JRef (eid marked_entity))]"
    using u c
    by (simp add: notify_def handler_condition_def handler_on_def change_on_def default_obj_def
        hasSkip_def get_prop_def js_or_def Let_def getStack_def push_def exceeds_def
        make_record_def)
  have d: "um (dispatch (OnChangeAttr ''style'' marked_entity (JObj []) noUndo_options) demo_module)
             = um demo_module"
    using f by (intro three_argument_events_skip(1)) simp
  show ?thesis using f a b d by (simp add: getStack_def)
qed

section \<open>The guard of undo and redo\<close>

text \<open>
  C4. While the host reports an inline-edit session, undo and redo return this and leave
  the whole state as it was: the stack, its pointer, the tracked entities.
\<close>

theorem edit_guard:
  assumes "em_isEditing s = Inr True"
  shows "undo lib all s = (Inr This, s) \<and> redo lib all s = (Inr This, s)"
  using assms by (simp add: undo_def redo_def Let_def)

theorem edit_guard_witness:
  "em_isEditing editing_module = Inr True
   \<and> undo store_lib None editing_module = (Inr This, editing_module)
   \<and> redo store_lib None editing_undone_module = (Inr This, editing_undone_module)
   \<and> hasUndo editing_module = Inr True
   \<and> hasRedo editing_undone_module = Inr True"
proof -
  have h1: "em_isEditing editing_module = Inr True"
    by (simp add: em_isEditing_def editing_module_def used_module_fields demo_host_def)
  have h2: "em_isEditing editing_undone_module = Inr True"
    by (simp add: em_isEditing_def editing_undone_module_def undone_module_def used_module_fields
        demo_host_def)
  have a: "hasUndo editing_module = Inr True"
    by (simp add: hasUndo_def editing_module_def used_um_facts um_isAvailable_def)
  have b: "hasRedo editing_undone_module = Inr True"
    by (simp add: hasRedo_def editing_undone_module_def undone_module_def used_um_facts
        um_isAvailable_def)
  from edit_guard[OF h1, of store_lib None] edit_guard[OF h2, of store_lib None] h1 a b
  show ?thesis by simp
qed

section \<open>The pointer stays within the stack\<close>

lemma push_pointer:
  "pointer u \<le> length (stack u) \<Longrightarrow> pointer (push r u) \<le> length (stack (push r u))"
  by (simp add: push_def Let_def min_def)

lemma init_pointer:
  "um (snd (init opts s)) = Some u \<Longrightarrow> pointer u \<le> length (stack u)"
  by (auto simp: init_def Let_def um_on_def addUndoType_def changeUndoType_def new_UndoManager_def)

lemma notify_pointer:
  assumes "um s = Some u" and "pointer u \<le> length (stack u)"
    and "um (notify k object v opt s) = Some u'"
  shows "pointer u' \<le> length (stack u')"
  using assms
  by (auto simp: notify_def Let_def push_pointer split: if_splits option.splits)

section \<open>The loops of the Command Stack\<close>

lemma applyUndo_pointer [simp]: "applyUndo lib (u\<lparr>pointer := p\<rparr>) = applyUndo lib u"
  by (simp add: applyUndo_def fun_eq_iff)

lemma applyRedo_pointer [simp]: "applyRedo lib (u\<lparr>pointer := p\<rparr>) = applyRedo lib u"
  by (simp add: applyRedo_def fun_eq_iff)

lemma undo_loop_frame:
  "(fst (undo_loop lib c uw))\<lparr>pointer := q\<rparr> = (fst uw)\<lparr>pointer := q\<rparr>"
proof (induction lib c uw rule: undo_loop.induct)
  case (1 lib c uw)
  show ?case
  proof (cases "0 < pointer (fst uw) \<and> c (record_at (fst uw) (pointer (fst uw) - 1))")
    case True
    then have "undo_loop lib c uw = undo_loop lib c (undo_step lib uw)"
      by (subst undo_loop.simps) simp
    with 1 True show ?thesis by (simp add: undo_step_def Let_def)
  next
    case False
    then have "undo_loop lib c uw = uw" by (subst undo_loop.simps) auto
    then show ?thesis by simp
  qed
qed

lemma redo_loop_frame:
  "(fst (redo_loop lib c uw))\<lparr>pointer := q\<rparr> = (fst uw)\<lparr>pointer := q\<rparr>"
proof (induction lib c uw rule: redo_loop.induct)
  case (1 lib c uw)
  show ?case
  proof (cases "pointer (fst uw) < length (stack (fst uw)) \<and> c (record_at (fst uw) (pointer (fst uw)))")
    case True
    then have "redo_loop lib c uw = redo_loop lib c (redo_step lib uw)"
      by (subst redo_loop.simps) simp
    with 1 True show ?thesis by (simp add: redo_step_def Let_def)
  next
    case False
    then have "redo_loop lib c uw = uw" by (subst redo_loop.simps) auto
    then show ?thesis by simp
  qed
qed

lemma undo_loop_pointer: "pointer (fst (undo_loop lib c uw)) \<le> pointer (fst uw)"
proof (induction lib c uw rule: undo_loop.induct)
  case (1 lib c uw)
  show ?case
  proof (cases "0 < pointer (fst uw) \<and> c (record_at (fst uw) (pointer (fst uw) - 1))")
    case True
    then have "undo_loop lib c uw = undo_loop lib c (undo_step lib uw)"
      by (subst undo_loop.simps) simp
    with 1 True show ?thesis by (simp add: undo_step_def Let_def)
  next
    case False
    then have "undo_loop lib c uw = uw" by (subst undo_loop.simps) auto
    then show ?thesis by simp
  qed
qed

lemma undo_loop_listeners: "listeners (fst (undo_loop lib c uw)) = listeners (fst uw)"
proof -
  have "listeners (fst (undo_loop lib c uw)) = listeners ((fst (undo_loop lib c uw))\<lparr>pointer := 0\<rparr>)"
    by simp
  also have "\<dots> = listeners ((fst uw)\<lparr>pointer := 0\<rparr>)" by (simp only: undo_loop_frame)
  finally show ?thesis by simp
qed

lemma redo_loop_listeners: "listeners (fst (redo_loop lib c uw)) = listeners (fst uw)"
proof -
  have "listeners (fst (redo_loop lib c uw)) = listeners ((fst (redo_loop lib c uw))\<lparr>pointer := 0\<rparr>)"
    by simp
  also have "\<dots> = listeners ((fst uw)\<lparr>pointer := 0\<rparr>)" by (simp only: redo_loop_frame)
  finally show ?thesis by simp
qed

lemma undo_loop_all:
  "pointer u \<le> length (stack u) \<Longrightarrow>
   undo_loop lib (\<lambda>r. True) (u, w) =
     (u\<lparr>pointer := 0\<rparr>, fold (applyUndo lib u) (rev (take (pointer u) (stack u))) w)"
proof (induction "pointer u" arbitrary: u w)
  case 0
  then show ?case by (subst undo_loop.simps) simp
next
  case (Suc n)
  let ?u = "u\<lparr>pointer := n\<rparr>"
  let ?w = "applyUndo lib u (stack u ! n) w"
  from Suc have n: "n < length (stack u)" and p: "pointer u = Suc n" by simp_all
  have step: "undo_step lib (u, w) = (?u, ?w)"
    using n p by (simp add: undo_step_def record_at_def Let_def)
  have "undo_loop lib (\<lambda>r. True) (u, w) = undo_loop lib (\<lambda>r. True) (?u, ?w)"
    using p step by (subst undo_loop.simps) simp
  also have "\<dots> = (?u\<lparr>pointer := 0\<rparr>, fold (applyUndo lib ?u) (rev (take (pointer ?u) (stack ?u))) ?w)"
    using Suc.hyps(1)[of ?u ?w] n by simp
  finally show ?case using n p by (simp add: take_Suc_conv_app_nth)
qed

lemma redo_loop_all:
  "pointer u \<le> length (stack u) \<Longrightarrow>
   redo_loop lib (\<lambda>r. True) (u, w) =
     (u\<lparr>pointer := length (stack u)\<rparr>, fold (applyRedo lib u) (drop (pointer u) (stack u)) w)"
proof (induction "length (stack u) - pointer u" arbitrary: u w)
  case 0
  then have "pointer u = length (stack u)" by simp
  then show ?case by (subst redo_loop.simps) simp
next
  case (Suc n)
  let ?u = "u\<lparr>pointer := Suc (pointer u)\<rparr>"
  let ?w = "applyRedo lib u (stack u ! pointer u) w"
  from Suc have lt: "pointer u < length (stack u)" by simp
  have step: "redo_step lib (u, w) = (?u, ?w)"
    using lt by (simp add: redo_step_def record_at_def Let_def)
  have "redo_loop lib (\<lambda>r. True) (u, w) = redo_loop lib (\<lambda>r. True) (?u, ?w)"
    using lt step by (subst redo_loop.simps) simp
  also have "\<dots> = (?u\<lparr>pointer := length (stack ?u)\<rparr>,
                      fold (applyRedo lib ?u) (drop (pointer ?u) (stack ?u)) ?w)"
    using Suc.hyps(1)[of ?u ?w] Suc.hyps(2) lt by simp
  finally show ?case using lt by (simp add: Cons_nth_drop_Suc[symmetric])
qed

section \<open>Listeners\<close>

lemma run_listeners_host:
  "em s = JRef (host_id (editor s)) \<Longrightarrow>
   run_listeners ls ev s =
     (None, s\<lparr>editor := (editor s)\<lparr>triggered := triggered (editor s) @
                 concat (map (\<lambda>l. event_names (snd l)) (filter (\<lambda>l. fst l = ev) ls))\<rparr>\<rparr>)"
  by (induction ls arbitrary: s) (simp_all add: em_trigger_def)

lemma um_trigger_host:
  assumes "um s = Some u" and "em s = JRef (host_id (editor s))"
  shows "um_trigger ev s =
     (None, s\<lparr>editor := (editor s)\<lparr>triggered := triggered (editor s) @
                 concat (map (\<lambda>l. event_names (snd l)) (filter (\<lambda>l. fst l = ev) (listeners u)))\<rparr>\<rparr>)"
  using assms by (simp add: um_trigger_def run_listeners_host)

lemma init_events:
  "concat (map (\<lambda>l. event_names (snd l)) (filter (\<lambda>l. fst l = ''undo'') init_listeners))
     = [''component:toggled'', ''change:canvasOffset'', ''undo'']"
  "concat (map (\<lambda>l. event_names (snd l)) (filter (\<lambda>l. fst l = ''redo'') init_listeners))
     = [''component:toggled'', ''change:canvasOffset'', ''redo'']"
  by (simp_all add: init_listeners_eq event_names_def)

lemma trigger_after:
  assumes "listeners u' = init_listeners" and "em s = JRef (host_id (editor s))"
  shows "triggered (editor (snd (um_trigger ''undo'' (s\<lparr>um := Some u', world := w'\<rparr>)))) =
           triggered (editor s) @ [''component:toggled'', ''change:canvasOffset'', ''undo'']"
    and "triggered (editor (snd (um_trigger ''redo'' (s\<lparr>um := Some u', world := w'\<rparr>)))) =
           triggered (editor s) @ [''component:toggled'', ''change:canvasOffset'', ''redo'']"
    and "fst (um_trigger ev (s\<lparr>um := Some u', world := w'\<rparr>)) = None"
proof -
  let ?s1 = "s\<lparr>um := Some u', world := w'\<rparr>"
  have a: "um ?s1 = Some u'" and b: "em ?s1 = JRef (host_id (editor ?s1))"
    using assms by simp_all
  show "triggered (editor (snd (um_trigger ''undo'' ?s1))) =
           triggered (editor s) @ [''component:toggled'', ''change:canvasOffset'', ''undo'']"
    by (simp add: um_trigger_host[OF a b] assms(1) init_events)
  show "triggered (editor (snd (um_trigger ''redo'' ?s1))) =
           triggered (editor s) @ [''component:toggled'', ''change:canvasOffset'', ''redo'']"
    by (simp add: um_trigger_host[OF a b] assms(1) init_events)
  show "fst (um_trigger ev ?s1) = None"
    by (simp add: um_trigger_host[OF a b])
qed

section \<open>undoAll and redoAll\<close>

text \<open>
  C5. undoAll and redoAll never ask the host whether an edit session is active: on a module
  whose em is the editor, whatever the editor reports, undoAll returns this with the
  pointer at 0, having replayed the undo of every record below the pointer from the top
  down, and redoAll returns this with the pointer at the length of the stack, having
  replayed the redo of every record from the pointer up. The stack itself is unchanged.
\<close>

theorem undoAll_redoAll_exhaust:
  assumes "um s = Some u" and "em s = JRef (host_id (editor s))"
    and "pointer u \<le> length (stack u)"
  shows "fst (undoAll lib s) = Inr This
       \<and> getPointer (snd (undoAll lib s)) = Inr 0
       \<and> getStack (snd (undoAll lib s)) = Inr (stack u)
       \<and> world (snd (undoAll lib s)) =
           fold (applyUndo lib u) (rev (take (pointer u) (stack u))) (world s)
       \<and> fst (redoAll lib s) = Inr This
       \<and> getPointer (snd (redoAll lib s)) = Inr (length (stack u))
       \<and> getStack (snd (redoAll lib s)) = Inr (stack u)
       \<and> world (snd (redoAll lib s)) =
           fold (applyRedo lib u) (drop (pointer u) (stack u)) (world s)"
proof -
  have U: "fst (undoAll lib s) = Inr This
       \<and> getPointer (snd (undoAll lib s)) = Inr 0
       \<and> getStack (snd (undoAll lib s)) = Inr (stack u)
       \<and> world (snd (undoAll lib s)) =
           fold (applyUndo lib u) (rev (take (pointer u) (stack u))) (world s)"
  proof (cases "pointer u = 0")
    case True
    with assms show ?thesis
      by (simp add: undoAll_def um_undoAll_def returning_this_def getPointer_def getStack_def)
  next
    case False
    let ?s1 = "s\<lparr>um := Some (u\<lparr>pointer := 0\<rparr>),
                  world := fold (applyUndo lib u) (rev (take (pointer u) (stack u))) (world s)\<rparr>"
    have "um_undoAll lib s = um_trigger ''undo'' ?s1"
      using assms False by (simp add: um_undoAll_def undo_loop_all)
    moreover have "um ?s1 = Some (u\<lparr>pointer := 0\<rparr>)" and "em ?s1 = JRef (host_id (editor ?s1))"
      using assms by simp_all
    ultimately show ?thesis
      by (simp add: undoAll_def returning_this_def um_trigger_host getPointer_def getStack_def)
  qed
  have R: "fst (redoAll lib s) = Inr This
       \<and> getPointer (snd (redoAll lib s)) = Inr (length (stack u))
       \<and> getStack (snd (redoAll lib s)) = Inr (stack u)
       \<and> world (snd (redoAll lib s)) =
           fold (applyRedo lib u) (drop (pointer u) (stack u)) (world s)"
  proof (cases "pointer u < length (stack u)")
    case False
    with assms show ?thesis
      by (simp add: redoAll_def um_redoAll_def returning_this_def getPointer_def getStack_def)
  next
    case True
    let ?s1 = "s\<lparr>um := Some (u\<lparr>pointer := length (stack u)\<rparr>),
                  world := fold (applyRedo lib u) (drop (pointer u) (stack u)) (world s)\<rparr>"
    have "um_redoAll lib s = um_trigger ''redo'' ?s1"
      using assms True by (simp add: um_redoAll_def redo_loop_all)
    moreover have "um ?s1 = Some (u\<lparr>pointer := length (stack u)\<rparr>)"
      and "em ?s1 = JRef (host_id (editor ?s1))"
      using assms by simp_all
    ultimately show ?thesis
      by (simp add: redoAll_def returning_this_def um_trigger_host getPointer_def getStack_def)
  qed
  from U R show ?thesis by simp
qed

theorem undoAll_redoAll_exhaust_witness:
  "um editing_module = Some used_um
   \<and> em editing_module = JRef (host_id (editor editing_module))
   \<and> pointer used_um \<le> length (stack used_um)
   \<and> editing (editor editing_module)
   \<and> getPointer editing_module = Inr 1
   \<and> fst (undoAll store_lib editing_module) = Inr This
   \<and> getPointer (snd (undoAll store_lib editing_module)) = Inr 0
   \<and> getPointer editing_undone_module = Inr 0
   \<and> fst (redoAll store_lib editing_undone_module) = Inr This
   \<and> getPointer (snd (redoAll store_lib editing_undone_module)) = Inr 1"
proof -
  have a: "um editing_module = Some used_um"
    and b: "em editing_module = JRef (host_id (editor editing_module))"
    and c: "pointer used_um \<le> length (stack used_um)"
    and d: "editing (editor editing_module)" "getPointer editing_module = Inr 1"
    by (simp_all add: editing_module_def used_um_facts used_module_fields demo_host_def getPointer_def)
  have a': "um editing_undone_module = Some (used_um\<lparr>pointer := 0\<rparr>)"
    and b': "em editing_undone_module = JRef (host_id (editor editing_undone_module))"
    and c': "pointer (used_um\<lparr>pointer := 0\<rparr>) \<le> length (stack (used_um\<lparr>pointer := 0\<rparr>))"
    and d': "getPointer editing_undone_module = Inr 0"
    by (simp_all add: editing_undone_module_def undone_module_def used_um_facts used_module_fields
        demo_host_def getPointer_def)
  from undoAll_redoAll_exhaust[OF a b c, of store_lib]
       undoAll_redoAll_exhaust[OF a' b' c', of store_lib] a b c d d'
  show ?thesis by (simp add: used_um_facts)
qed

section \<open>getStackGroup\<close>

lemma indexOf_by_eq: "indexOf_by (=) xs v < 0 \<longleftrightarrow> v \<notin> set xs"
proof (induction xs)
  case Nil
  then show ?case by simp
next
  case (Cons x xs)
  then show ?case by (auto simp: Let_def)
qed

lemma fold_group_item:
  "fold group_item st (res, ins) =
     (res @ keep_first (set ins) st, ins @ map magicFusionIndex (keep_first (set ins) st))"
proof (induction st arbitrary: res ins)
  case Nil
  then show ?case by simp
next
  case (Cons r rs)
  then show ?case by (simp add: group_item_def indexOf_by_eq Let_def insert_commute)
qed

lemma stack_group_keep_first: "stack_group st = keep_first {} st"
  by (simp add: stack_group_def fold_group_item)

lemma first_of_group_Cons:
  "first_of_group (r # rs) (Suc i) \<longleftrightarrow>
     magicFusionIndex r \<noteq> magicFusionIndex (rs ! i) \<and> first_of_group rs i"
proof -
  have h: "[0..<Suc i] = 0 # map Suc [0..<i]"
    by (simp add: upt_conv_Cons map_Suc_upt del: upt_Suc)
  have "first_of_group (r # rs) (Suc i) =
          list_all (\<lambda>j. magicFusionIndex ((r # rs) ! j) \<noteq> magicFusionIndex ((r # rs) ! Suc i))
            (0 # map Suc [0..<i])"
    by (simp only: first_of_group_def h)
  also have "\<dots> = (magicFusionIndex r \<noteq> magicFusionIndex (rs ! i) \<and> first_of_group rs i)"
    by (simp add: first_of_group_def list.pred_map comp_def)
  finally show ?thesis .
qed

lemma keep_first_indices:
  "keep_first seen st =
     map (\<lambda>i. st ! i)
       (filter (\<lambda>i. magicFusionIndex (st ! i) \<notin> seen \<and> first_of_group st i) [0..<length st])"
proof (induction st arbitrary: seen)
  case Nil
  then show ?case by simp
next
  case (Cons r rs)
  have upt: "[0..<Suc (length rs)] = 0 # map Suc [0..<length rs]"
    by (simp add: upt_conv_Cons map_Suc_upt del: upt_Suc)
  have zero: "first_of_group (r # rs) 0" by (simp add: first_of_group_def)
  show ?case
  proof (cases "magicFusionIndex r \<in> seen")
    case True
    then have "\<And>i. (magicFusionIndex (rs ! i) \<notin> seen \<and> magicFusionIndex r \<noteq> magicFusionIndex (rs ! i)
                  \<and> first_of_group rs i)
             = (magicFusionIndex (rs ! i) \<notin> seen \<and> first_of_group rs i)"
      by auto
    with True show ?thesis
      by (simp add: upt filter_map comp_def first_of_group_Cons Cons.IH del: upt_Suc)
  next
    case False
    have "\<And>i. (magicFusionIndex (rs ! i) \<notin> seen \<and> magicFusionIndex r \<noteq> magicFusionIndex (rs ! i)
                  \<and> first_of_group rs i)
             = (magicFusionIndex (rs ! i) \<notin> insert (magicFusionIndex r) seen \<and> first_of_group rs i)"
      by auto
    with False zero show ?thesis
      by (simp add: upt filter_map comp_def first_of_group_Cons Cons.IH del: upt_Suc)
  qed
qed

lemma keep_first_groups:
  "distinct (map magicFusionIndex (keep_first seen st))
   \<and> set (map magicFusionIndex (keep_first seen st)) = magicFusionIndex ` set st - seen"
  by (induction st arbitrary: seen) auto

lemma keep_first_subseq: "subseq (keep_first seen st) st"
  by (induction st arbitrary: seen) auto

text \<open>
  C6. getStackGroup returns, for the stack of the undo manager, the records that are the
  first of their group identifier, in stack order: the list computed by the forEach equals
  the reduced view of the specification, it is a subsequence of the stack, its group
  identifiers are pairwise distinct, and its length is the number of distinct group
  identifiers in the stack.
\<close>

theorem getStackGroup_first_per_group:
  "getStackGroup s = map_sum id stack_group (getStack s)
   \<and> stack_group st = spec_stack_group st
   \<and> subseq (stack_group st) st
   \<and> distinct (map magicFusionIndex (stack_group st))
   \<and> length (stack_group st) = card (magicFusionIndex ` set st)"
proof -
  have a: "getStackGroup s = map_sum id stack_group (getStack s)"
    by (simp add: getStackGroup_def split: sum.splits)
  have b: "stack_group st = spec_stack_group st"
    by (simp add: stack_group_keep_first keep_first_indices spec_stack_group_def)
  have c: "subseq (stack_group st) st"
    by (simp add: stack_group_keep_first keep_first_subseq)
  have d: "distinct (map magicFusionIndex (stack_group st))"
    by (simp add: stack_group_keep_first keep_first_groups)
  have "card (set (map magicFusionIndex (stack_group st))) = length (map magicFusionIndex (stack_group st))"
    using d by (rule distinct_card)
  moreover have "set (map magicFusionIndex (stack_group st)) = magicFusionIndex ` set st"
    using keep_first_groups[of "{}" st] by (simp add: stack_group_keep_first)
  ultimately have e: "length (stack_group st) = card (magicFusionIndex ` set st)" by simp
  from a b c d e show ?thesis by simp
qed

theorem getStackGroup_first_per_group_witness:
  "stack_group demo_stack = [group_record 1 7, group_record 3 8]
   \<and> spec_stack_group demo_stack = [group_record 1 7, group_record 3 8]
   \<and> subseq [group_record 1 7, group_record 3 8] demo_stack
   \<and> card (magicFusionIndex ` set demo_stack) = 2"
proof -
  have e: "stack_group demo_stack = [group_record 1 7, group_record 3 8]"
    by (simp add: stack_group_def demo_stack_def group_item_def group_record_def Let_def)
  have f: "spec_stack_group demo_stack = stack_group demo_stack"
    and g: "subseq (stack_group demo_stack) demo_stack"
    and c: "length (stack_group demo_stack) = card (magicFusionIndex ` set demo_stack)"
    using getStackGroup_first_per_group[of undone_module demo_stack] by (metis, blast, blast)
  show ?thesis using f g c unfolding e by simp
qed

section \<open>The shared before cache\<close>

lemma deliver_append:
  "deliver (xs @ ys) cache =
     (fst (deliver xs cache) @ fst (deliver ys (snd (deliver xs cache))),
      snd (deliver ys (snd (deliver xs cache))))"
  by (induction xs arbitrary: cache) (simp_all add: Let_def)

lemma caching_on_empty:
  assumes "h \<in> {ChangeType, CustomUndoType}" and "\<not> truthy (hasSkip (default_obj opt))"
  shows "map_option (\<lambda>c. (c_object c, c_before c)) (fst (handler_on h object v opt cache)) =
           Some (JRef (eid object), SAttrs (fill_cache object cache))"
    and "snd (handler_on h object v opt cache) = None"
  using assms by (auto simp: handler_on_def change_on_def customUndoType_on_def Let_def)

lemma caching_on_suppressed:
  assumes "h \<in> {ChangeType, CustomUndoType}" and "truthy (hasSkip (default_obj opt))"
  shows "handler_on h object v opt cache = (None, Some (fill_cache object cache))"
  using assms by (auto simp: handler_on_def change_on_def customUndoType_on_def Let_def)

lemma cache_kept:
  assumes "truthy (hasSkip (default_obj opt)) \<or> h \<in> {AddType, RemoveType}"
  shows "snd (handler_on h object v opt (Some b)) = Some b"
  using assms
  by (cases h) (auto simp: handler_on_def change_on_def customUndoType_on_def fill_cache_def Let_def)

lemma deliver_cache_kept:
  assumes "\<forall>n \<in> set ns. truthy (hasSkip (default_obj (n_opt n))) \<or> n_handler n \<in> {AddType, RemoveType}"
  shows "snd (deliver ns (Some b)) = Some b"
  using assms by (induction ns) (simp_all add: Let_def cache_kept)

text \<open>
  C7, as the claim states it: the cache is scoped per entity, so that a record never
  carries the snapshot of another entity. It is one slot for all entities. On the module
  just initialised, a style change of A arrives with avoidStore and then a style change
  of B without it: the record on the stack has B as target and the previous attributes of
  A as before, which are not those of B.
\<close>

theorem shared_cache_crosses_entities:
  "map (\<lambda>r. (target r, before r))
     (case getStack (notify ''change:style'' entity_B (JObj []) None
                       (notify ''change:style'' entity_A (JObj []) skip_opts demo_module)) of
        Inl e \<Rightarrow> [] | Inr st \<Rightarrow> st)
     = [(JRef (eid entity_B), SAttrs (previousAttributes entity_A))]
   \<and> eid entity_A \<noteq> eid entity_B
   \<and> SAttrs (previousAttributes entity_A) \<noteq> SAttrs (previousAttributes entity_B)"
proof -
  obtain u where u: "um demo_module = Some u" "track u" "stack u = []" "pointer u = 0"
      "undoTypes u ''change:style'' = Some CustomUndoType" "maximumStackLength u = JNum 500"
    using demo_um by blast
  let ?s1 = "notify ''change:style'' entity_A (JObj []) skip_opts demo_module"
  have s1: "?s1 = demo_module\<lparr>beforeCache := Some (previousAttributes entity_A)\<rparr>"
    using u skip_opts_suppressed
    by (simp add: notify_def handler_condition_def handler_on_def customUndoType_on_def
        fill_cache_def demo_fields Let_def)
  have st: "getStack (notify ''change:style'' entity_B (JObj []) None
                    (demo_module\<lparr>beforeCache := Some (previousAttributes entity_A)\<rparr>)) =
          Inr [make_record ''change:style'' (currentGroupId u)
                 \<lparr> c_object = JRef (eid entity_B), c_before = SAttrs (previousAttributes entity_A),
                   c_after = SAttrs (toJSON entity_B [''keepSymbols'' \<mapsto> JNum 1]),
                   c_options = None \<rparr>]"
    using u no_opts_unsuppressed
    by (simp add: notify_def handler_condition_def handler_on_def customUndoType_on_def
        fill_cache_def Let_def getStack_def push_def exceeds_def)
  have ne: "previousAttributes entity_A \<noteq> previousAttributes entity_B"
  proof
    assume "previousAttributes entity_A = previousAttributes entity_B"
    then have "previousAttributes entity_A ''color'' = previousAttributes entity_B ''color''"
      by simp
    then show False by (simp add: previousAttributes_def entity_A_def entity_B_def)
  qed
  show ?thesis unfolding s1 st using ne by (simp add: make_record_def entity_A_def entity_B_def)
qed

text \<open>
  C7, amended: the cache is one slot shared by all entities and by the handlers of change
  and of the change:style family. In a sequence of notifications through these handlers
  that starts on an empty slot and in which no notification is suppressed, every capture
  carries the notifying entity itself with its own previous attributes as before, and the
  slot is empty again at the end.
\<close>

theorem unsuppressed_captures_own_snapshot:
  assumes "\<forall>n \<in> set ns. n_handler n \<in> {ChangeType, CustomUndoType}
             \<and> \<not> truthy (hasSkip (default_obj (n_opt n)))"
  shows "map (map_option (\<lambda>c. (c_object c, c_before c))) (fst (deliver ns None)) =
           map (\<lambda>n. Some (JRef (eid (n_object n)), SAttrs (previousAttributes (n_object n)))) ns
       \<and> snd (deliver ns None) = None"
  using assms
proof (induction ns)
  case Nil
  then show ?case by simp
next
  case (Cons n ns)
  then have h: "n_handler n \<in> {ChangeType, CustomUndoType}"
    and o: "\<not> truthy (hasSkip (default_obj (n_opt n)))" by simp_all
  from Cons have IH: "map (map_option (\<lambda>c. (c_object c, c_before c))) (fst (deliver ns None)) =
           map (\<lambda>n. Some (JRef (eid (n_object n)), SAttrs (previousAttributes (n_object n)))) ns
       \<and> snd (deliver ns None) = None" by simp
  show ?case
    using caching_on_empty[OF h o, of "n_object n" "n_value n" None] IH
    by (simp add: Let_def fill_cache_def)
qed

theorem unsuppressed_captures_own_snapshot_witness:
  "\<not> truthy (hasSkip (default_obj None))
   \<and> map (map_option (\<lambda>c. (c_object c, c_before c)))
       (fst (deliver [\<lparr>n_handler = CustomUndoType, n_object = entity_A, n_value = JObj [], n_opt = None\<rparr>,
                      \<lparr>n_handler = ChangeType, n_object = entity_B, n_value = JObj [], n_opt = None\<rparr>]
               None)) =
       [Some (JRef 3, SAttrs (previousAttributes entity_A)),
        Some (JRef 4, SAttrs (previousAttributes entity_B))]"
proof -
  let ?ns = "[\<lparr>n_handler = CustomUndoType, n_object = entity_A, n_value = JObj [], n_opt = None\<rparr>,
              \<lparr>n_handler = ChangeType, n_object = entity_B, n_value = JObj [], n_opt = None\<rparr>]"
  have h: "\<forall>n \<in> set ?ns. n_handler n \<in> {ChangeType, CustomUndoType}
             \<and> \<not> truthy (hasSkip (default_obj (n_opt n)))"
    by (simp add: no_opts_unsuppressed)
  from unsuppressed_captures_own_snapshot[OF h] no_opts_unsuppressed
  show ?thesis by (simp add: entity_A_def entity_B_def)
qed

text \<open>
  C10. A notification on A through the handler of change or of the change:style family,
  suppressed and arriving on an empty slot, yields no capture and leaves the previous
  attributes of A in the slot. Notifications that are suppressed, or that go through the
  handlers of add and remove, leave the slot as it is. The next capture through the
  caching handlers that is not suppressed, on any entity B, carries B as object and the
  previous attributes of A as before.
\<close>

theorem suppressed_snapshot_reaches_next_capture:
  assumes "h \<in> {ChangeType, CustomUndoType}" and "h' \<in> {ChangeType, CustomUndoType}"
    and "truthy (hasSkip (default_obj optA))"
    and "\<forall>n \<in> set mids. truthy (hasSkip (default_obj (n_opt n))) \<or> n_handler n \<in> {AddType, RemoveType}"
    and "\<not> truthy (hasSkip (default_obj optB))"
  shows "handler_on h A vA optA None = (None, Some (previousAttributes A))
       \<and> snd (deliver mids (Some (previousAttributes A))) = Some (previousAttributes A)
       \<and> map_option (\<lambda>c. (c_object c, c_before c))
            (last (fst (deliver
               (\<lparr>n_handler = h, n_object = A, n_value = vA, n_opt = optA\<rparr> # mids @
                 [\<lparr>n_handler = h', n_object = B, n_value = vB, n_opt = optB\<rparr>]) None))) =
           Some (JRef (eid B), SAttrs (previousAttributes A))"
proof -
  have a: "handler_on h A vA optA None = (None, Some (previousAttributes A))"
    using caching_on_suppressed[OF assms(1) assms(3), of A vA None] by (simp add: fill_cache_def)
  have b: "snd (deliver mids (Some (previousAttributes A))) = Some (previousAttributes A)"
    using assms(4) by (rule deliver_cache_kept)
  have c: "map_option (\<lambda>c. (c_object c, c_before c))
             (fst (handler_on h' B vB optB (Some (previousAttributes A)))) =
           Some (JRef (eid B), SAttrs (previousAttributes A))"
    using caching_on_empty(1)[OF assms(2) assms(5), of B vB "Some (previousAttributes A)"]
    by (simp add: fill_cache_def)
  show ?thesis using a b c by (simp add: Let_def deliver_append)
qed

theorem suppressed_snapshot_reaches_next_capture_witness:
  "truthy (hasSkip (default_obj skip_opts))
   \<and> \<not> truthy (hasSkip (default_obj None))
   \<and> handler_on CustomUndoType entity_A (JObj []) skip_opts None =
        (None, Some (previousAttributes entity_A))
   \<and> map_option (\<lambda>c. (c_object c, c_before c))
        (last (fst (deliver
           (\<lparr>n_handler = CustomUndoType, n_object = entity_A, n_value = JObj [], n_opt = skip_opts\<rparr> #
            [\<lparr>n_handler = ChangeType, n_object = entity_B, n_value = JObj [], n_opt = skip_opts\<rparr>] @
            [\<lparr>n_handler = ChangeType, n_object = entity_B, n_value = JObj [], n_opt = None\<rparr>]) None))) =
       Some (JRef (eid entity_B), SAttrs (previousAttributes entity_A))"
proof -
  let ?mids = "[\<lparr>n_handler = ChangeType, n_object = entity_B, n_value = JObj [], n_opt = skip_opts\<rparr>]"
  have h1: "CustomUndoType \<in> {ChangeType, CustomUndoType}"
    and h2: "ChangeType \<in> {ChangeType, CustomUndoType}" by simp_all
  have h4: "\<forall>n \<in> set ?mids. truthy (hasSkip (default_obj (n_opt n)))
              \<or> n_handler n \<in> {AddType, RemoveType}"
    by (simp add: skip_opts_suppressed)
  from suppressed_snapshot_reaches_next_capture[OF h1 h2 skip_opts_suppressed h4 no_opts_unsuppressed,
         of entity_A "JObj []" entity_B "JObj []"]
       skip_opts_suppressed no_opts_unsuppressed
  show ?thesis by blast
qed

section \<open>destroy\<close>

lemma destroy_result:
  assumes "um s = Some u"
  shows "destroy s =
     (Inr Undefined, s\<lparr>um := Some (um_unregisterAll (um_clear u)), this_em := JObj []\<rparr>)"
  using assms
  by (simp add: destroy_def clear_def removeAll_entities_def with_um_def release_def Let_def)

text \<open>
  C8. The claim: destroy clears the stack, unregisters the entities and releases the event
  bus handle, the undo manager, the configuration and the cache, leaving the engine
  unusable. The stack is cleared and the entities are unregistered, but the forEach
  assigns to the parameter of its arrow function and releases nothing: after destroy on a
  module in use, getConfig returns the configuration as before, em is still the editor,
  the undo manager is still there, the cache still holds the snapshot of A, and add and
  undo still return this. Only this.em is replaced by an empty object.
\<close>

theorem destroy_releases_nothing:
  "fst (destroy used_module) = Inr Undefined
   \<and> getConfig (snd (destroy used_module)) = getConfig used_module
   \<and> getConfig used_module \<noteq> None
   \<and> em (snd (destroy used_module)) = JRef (host_id demo_host)
   \<and> getInstance (snd (destroy used_module)) \<noteq> None
   \<and> beforeCache (snd (destroy used_module)) = Some (previousAttributes entity_A)
   \<and> this_em (snd (destroy used_module)) = JObj []
   \<and> getStack (snd (destroy used_module)) = Inr []
   \<and> fst (add_entity 4 (snd (destroy used_module))) = Inr This
   \<and> fst (undo store_lib None (snd (destroy used_module))) = Inr This"
proof -
  obtain u where u: "um used_module = Some u" using used_module_fields(5) by blast
  have cfg: "getConfig used_module \<noteq> None"
    by (simp add: getConfig_def used_module_fields(3) demo_module_def init_config)
  show ?thesis
    using cfg
    by (simp add: destroy_result[OF u] getConfig_def getInstance_def used_module_fields(1,2,4)
        demo_host_def getStack_def um_clear_def um_unregisterAll_def add_entity_def with_um_def
        undo_def em_isEditing_def um_undo_def returning_this_def Let_def)
qed

section \<open>The events forwarded to the host\<close>

text \<open>
  C9. On a module whose undo manager carries the listeners init registers and whose em is
  the editor: whenever the undo manager emits undo (redo), the bus of the editor receives
  component:toggled and change:canvasOffset, the visual refresh, and then undo (redo); and
  an undo, redo, undoAll or redoAll that has history to work on, and for undo and redo no
  edit session in the way, ends with exactly these events.
\<close>

theorem undo_redo_events:
  assumes "um s = Some u" and "listeners u = init_listeners"
    and "em s = JRef (host_id (editor s))"
  shows "um_trigger ''undo'' s =
           (None, s\<lparr>editor := (editor s)\<lparr>triggered := triggered (editor s) @
                      [''component:toggled'', ''change:canvasOffset'', ''undo'']\<rparr>\<rparr>)
       \<and> um_trigger ''redo'' s =
           (None, s\<lparr>editor := (editor s)\<lparr>triggered := triggered (editor s) @
                      [''component:toggled'', ''change:canvasOffset'', ''redo'']\<rparr>\<rparr>)
       \<and> (\<not> editing (editor s) \<and> 0 < pointer u \<longrightarrow>
            fst (undo lib all s) = Inr This \<and>
            triggered (editor (snd (undo lib all s))) =
              triggered (editor s) @ [''component:toggled'', ''change:canvasOffset'', ''undo''])
       \<and> (\<not> editing (editor s) \<and> pointer u < length (stack u) \<longrightarrow>
            fst (redo lib all s) = Inr This \<and>
            triggered (editor (snd (redo lib all s))) =
              triggered (editor s) @ [''component:toggled'', ''change:canvasOffset'', ''redo''])
       \<and> (0 < pointer u \<longrightarrow>
            fst (undoAll lib s) = Inr This \<and>
            triggered (editor (snd (undoAll lib s))) =
              triggered (editor s) @ [''component:toggled'', ''change:canvasOffset'', ''undo''])
       \<and> (pointer u < length (stack u) \<longrightarrow>
            fst (redoAll lib s) = Inr This \<and>
            triggered (editor (snd (redoAll lib s))) =
              triggered (editor s) @ [''component:toggled'', ''change:canvasOffset'', ''redo''])"
proof -
  have t: "um_trigger ''undo'' s =
           (None, s\<lparr>editor := (editor s)\<lparr>triggered := triggered (editor s) @
                      [''component:toggled'', ''change:canvasOffset'', ''undo'']\<rparr>\<rparr>)"
     "um_trigger ''redo'' s =
           (None, s\<lparr>editor := (editor s)\<lparr>triggered := triggered (editor s) @
                      [''component:toggled'', ''change:canvasOffset'', ''redo'']\<rparr>\<rparr>)"
    using assms by (simp_all add: um_trigger_host init_events)
  have f: "(\<not> editing (editor s) \<and> 0 < pointer u \<longrightarrow>
            fst (undo lib all s) = Inr This \<and>
            triggered (editor (snd (undo lib all s))) =
              triggered (editor s) @ [''component:toggled'', ''change:canvasOffset'', ''undo''])
       \<and> (\<not> editing (editor s) \<and> pointer u < length (stack u) \<longrightarrow>
            fst (redo lib all s) = Inr This \<and>
            triggered (editor (snd (redo lib all s))) =
              triggered (editor s) @ [''component:toggled'', ''change:canvasOffset'', ''redo''])
       \<and> (0 < pointer u \<longrightarrow>
            fst (undoAll lib s) = Inr This \<and>
            triggered (editor (snd (undoAll lib s))) =
              triggered (editor s) @ [''component:toggled'', ''change:canvasOffset'', ''undo''])
       \<and> (pointer u < length (stack u) \<longrightarrow>
            fst (redoAll lib s) = Inr This \<and>
            triggered (editor (snd (redoAll lib s))) =
              triggered (editor s) @ [''component:toggled'', ''change:canvasOffset'', ''redo''])"
    using assms
    by (auto simp: undo_def redo_def undoAll_def redoAll_def um_undo_def um_redo_def um_undoAll_def
        um_redoAll_def em_isEditing_def returning_this_def Let_def trigger_after
        undo_loop_listeners redo_loop_listeners undo_step_def redo_step_def)
  from t f show ?thesis by simp
qed

theorem undo_redo_events_witness:
  "um used_module = Some used_um
   \<and> listeners used_um = init_listeners
   \<and> em used_module = JRef (host_id (editor used_module))
   \<and> editing (editor used_module) = False
   \<and> 0 < pointer used_um
   \<and> triggered (editor used_module) = []
   \<and> triggered (editor (snd (undo store_lib None used_module))) =
        [''component:toggled'', ''change:canvasOffset'', ''undo'']
   \<and> triggered (editor (snd (undoAll store_lib used_module))) =
        [''component:toggled'', ''change:canvasOffset'', ''undo'']
   \<and> triggered (editor (snd (redo store_lib None undone_module))) =
        [''component:toggled'', ''change:canvasOffset'', ''redo'']
   \<and> triggered (editor (snd (redoAll store_lib undone_module))) =
        [''component:toggled'', ''change:canvasOffset'', ''redo'']"
proof -
  have a: "um used_module = Some used_um" and b: "listeners used_um = init_listeners"
    and c: "em used_module = JRef (host_id (editor used_module))"
    and d: "editing (editor used_module) = False" "0 < pointer used_um"
      "triggered (editor used_module) = []"
    by (simp_all add: used_um_facts used_module_fields demo_host_def)
  have a': "um undone_module = Some (used_um\<lparr>pointer := 0\<rparr>)"
    and b': "listeners (used_um\<lparr>pointer := 0\<rparr>) = init_listeners"
    and c': "em undone_module = JRef (host_id (editor undone_module))"
    and d': "editing (editor undone_module) = False"
      "pointer (used_um\<lparr>pointer := 0\<rparr>) < length (stack (used_um\<lparr>pointer := 0\<rparr>))"
      "triggered (editor undone_module) = []"
    by (simp_all add: undone_module_def used_um_facts used_module_fields demo_host_def)
  from undo_redo_events[OF a b c, of store_lib None]
       undo_redo_events[OF a' b' c', of store_lib None] a b c d d'
  show ?thesis by simp
qed

end
